theory Spec2Isabelle
  imports Complex_Main
begin

section \<open>The process executor (src/godot/executor.ts)\<close>

text \<open>
  The interface \<open>GodotProcessResult\<close> of the type declarations: \<open>error\<close> and
  \<open>exitCode\<close> are optional fields, \<open>None\<close> stands for \<open>undefined\<close>. The JavaScript
  numbers of the executor and of the client's counter hold exit codes and correlation
  ids counted up from 0: integers in the range where the arithmetic of doubles is exact.
  They are modelled as \<open>int\<close>. The numbers of diagnostics are sent by the peer and are
  modelled as doubles (see the section on diagnostics).
\<close>

record GodotProcessResult =
  success :: bool
  "output" :: string
  error :: "string option"
  exitCode :: "int option"

text \<open>
  \<open>GodotExecutor.execute\<close> spawns the child and then only reacts to events. The events
  of one call are the \<open>data\<close> events of the two pipes, the expiry of the timer set by
  \<open>setTimeout\<close>, and the \<open>close\<close> and \<open>error\<close> events of the child. The \<open>close\<close> event
  carries the exit code, which is \<open>null\<close> when a signal ended the process.
\<close>

datatype proc_event =
    StdoutData string
  | StderrData string
  | TimerFires
  | Close "int option"
  | ProcError string

datatype signal = SIGTERM

datatype timer = Armed | Fired | Cleared

text \<open>
  The variables the handlers of one call close over: the accumulators \<open>output\<close> and
  \<open>errorOutput\<close>, the timer \<open>timeoutId\<close>, the signals passed to \<open>childProcess.kill\<close>,
  and the promise that \<open>execute\<close> returns (\<open>None\<close> while it is not settled).
\<close>

record exec_state =
  outputVar :: string
  errorOutputVar :: string
  timeoutId :: timer
  killed :: "signal list"
  promise :: "GodotProcessResult option"

text \<open>A promise keeps the value of the first \<open>resolve\<close>; later calls change nothing.\<close>

definition resolve :: "GodotProcessResult \<Rightarrow> exec_state \<Rightarrow> exec_state" where
  "resolve r s = (case promise s of None \<Rightarrow> s\<lparr>promise := Some r\<rparr> | Some _ \<Rightarrow> s)"

text \<open>\<open>clearTimeout\<close> cancels a timer that has not fired and is a no-op otherwise.\<close>

definition clearTimeout :: "exec_state \<Rightarrow> exec_state" where
  "clearTimeout s = (if timeoutId s = Armed then s\<lparr>timeoutId := Cleared\<rparr> else s)"

definition spawned :: exec_state where
  "spawned = \<lparr>outputVar = [], errorOutputVar = [], timeoutId = Armed, killed = [],
     promise = None\<rparr>"

text \<open>
  One handler per event. The \<open>data\<close> listeners exist only when \<open>captureOutput\<close> is set.
  The timer callback runs only while the timer is armed.
\<close>

fun on_event :: "bool \<Rightarrow> exec_state \<Rightarrow> proc_event \<Rightarrow> exec_state" where
  "on_event captureOutput s (StdoutData d) =
     (if captureOutput then s\<lparr>outputVar := outputVar s @ d\<rparr> else s)"
| "on_event captureOutput s (StderrData d) =
     (if captureOutput then s\<lparr>errorOutputVar := errorOutputVar s @ d\<rparr> else s)"
| "on_event captureOutput s TimerFires =
     (if timeoutId s = Armed
      then resolve
             \<lparr>success = False, output = outputVar s,
              error = Some ''Process timed out'', exitCode = Some (- 1)\<rparr>
             (s\<lparr>timeoutId := Fired, killed := killed s @ [SIGTERM]\<rparr>)
      else s)"
| "on_event captureOutput s (Close code) =
     (let s' = clearTimeout s
      in resolve
           \<lparr>success = (code = Some 0), output = outputVar s',
            error = (if errorOutputVar s' = [] then None else Some (errorOutputVar s')),
            exitCode = code\<rparr>
           s')"
| "on_event captureOutput s (ProcError msg) =
     resolve \<lparr>success = False, output = [], error = Some msg, exitCode = Some (- 1)\<rparr>
       (clearTimeout s)"

text \<open>
  \<open>execute\<close> on the events of one child, in the order the event loop delivers them. The
  arguments, the working directory and the length of the timeout decide which events
  arrive and when; the handlers do not read them.
\<close>

definition execute :: "bool \<Rightarrow> proc_event list \<Rightarrow> exec_state" where
  "execute captureOutput es = foldl (on_event captureOutput) spawned es"

text \<open>What the two pipes have delivered in a run of events.\<close>

fun is_data :: "proc_event \<Rightarrow> bool" where
  "is_data (StdoutData d) = True"
| "is_data (StderrData d) = True"
| "is_data e = False"

fun stdout_text :: "proc_event list \<Rightarrow> string" where
  "stdout_text [] = []"
| "stdout_text (StdoutData d # es) = d @ stdout_text es"
| "stdout_text (e # es) = stdout_text es"

fun stderr_text :: "proc_event list \<Rightarrow> string" where
  "stderr_text [] = []"
| "stderr_text (StderrData d # es) = d @ stderr_text es"
| "stderr_text (e # es) = stderr_text es"

definition captured :: "bool \<Rightarrow> string \<Rightarrow> string" where
  "captured captureOutput txt = (if captureOutput then txt else [])"

text \<open>
  How the child ended, read off the events: the code of its \<open>close\<close> event (\<open>null\<close>,
  here \<open>Some None\<close>, when a signal ended it), or \<open>None\<close> when it has not closed.
\<close>

fun child_exit :: "proc_event list \<Rightarrow> int option option" where
  "child_exit [] = None"
| "child_exit (Close code # es) = Some code"
| "child_exit (e # es) = child_exit es"

section \<open>Inline scripts (GodotExecutor.runInlineScript)\<close>

text \<open>
  An awaited promise either yields a value or throws what it was rejected with. The
  \<open>catch\<close> block of \<open>runInlineScript\<close> tells an \<open>Error\<close> object, whose message it
  reports, from any other thrown value.
\<close>

datatype thrown = ErrorObject string | OtherValue

datatype 'a settled = Fulfilled 'a | Rejected thrown

text \<open>The scratch directory: the files that exist, with their text.\<close>

type_synonym files = "string \<rightharpoonup> string"

text \<open>
  What the outside world does during one call: the directory \<open>tmpdir()\<close> and the token
  \<open>randomUUID()\<close> return, the function \<open>path.join\<close>, whether \<open>writeFile\<close> and \<open>unlink\<close>
  fail (and with what), whether \<open>spawn\<close> throws inside the promise executor of
  \<open>execute\<close> (which rejects the promise), and the events of the child otherwise.
\<close>

record inline_env =
  tmpdir :: string
  randomUUID :: string
  join :: "string \<Rightarrow> string \<Rightarrow> string"
  writeFile_fails :: "thrown option"
  spawn_throws :: "thrown option"
  child_events :: "proc_event list"
  unlink_fails :: "thrown option"

definition tempFile :: "inline_env \<Rightarrow> string" where
  "tempFile env = join env (tmpdir env) (''godot_mcp_'' @ randomUUID env @ ''.gd'')"

definition writeFile :: "thrown option \<Rightarrow> string \<Rightarrow> string \<Rightarrow> files \<Rightarrow> thrown + files" where
  "writeFile fails path txt fs =
     (case fails of Some t \<Rightarrow> Inl t | None \<Rightarrow> Inr (fs(path \<mapsto> txt)))"

definition unlink :: "thrown option \<Rightarrow> string \<Rightarrow> files \<Rightarrow> thrown + files" where
  "unlink fails path fs =
     (case fails of Some t \<Rightarrow> Inl t | None \<Rightarrow> Inr (fs(path := None)))"

text \<open>
  \<open>runScript\<close> is \<open>execute\<close> with the default options, so output is captured. The
  result is \<open>None\<close> while the promise of \<open>execute\<close> is not settled.
\<close>

definition runScript :: "inline_env \<Rightarrow> GodotProcessResult settled option" where
  "runScript env =
     (case spawn_throws env of
        Some t \<Rightarrow> Some (Rejected t)
      | None \<Rightarrow> map_option Fulfilled (promise (execute True (child_events env))))"

definition caught :: "thrown \<Rightarrow> GodotProcessResult" where
  "caught t =
     \<lparr>success = False, output = [],
      error = Some (case t of ErrorObject m \<Rightarrow> m | OtherValue \<Rightarrow> ''Unknown error''),
      exitCode = Some (- 1)\<rparr>"

text \<open>
  The three awaits sit in one \<open>try\<close> block; whichever throws, the \<open>catch\<close> block
  returns at once. The call returns the directory as it leaves it and its result;
  \<open>None\<close> means the call does not return.
\<close>

definition runInlineScript ::
  "inline_env \<Rightarrow> string \<Rightarrow> files \<Rightarrow> (files \<times> GodotProcessResult) option" where
  "runInlineScript env code fs =
     (case writeFile (writeFile_fails env) (tempFile env) code fs of
        Inl t \<Rightarrow> Some (fs, caught t)
      | Inr fs1 \<Rightarrow>
          (case runScript env of
             None \<Rightarrow> None
           | Some (Rejected t) \<Rightarrow> Some (fs1, caught t)
           | Some (Fulfilled result) \<Rightarrow>
               (case unlink (unlink_fails env) (tempFile env) fs1 of
                  Inl t \<Rightarrow> Some (fs1, caught t)
                | Inr fs2 \<Rightarrow> Some (fs2, result))))"

text \<open>
  Two concrete calls. In the first the script prints \<open>done\<close> and exits with code 0 and
  the deletion then fails; in the second \<open>spawn\<close> throws. On the directory \<open>/tmp\<close> and
  a file name, \<open>path.join\<close> puts a \<open>/\<close> between the two.
\<close>

definition env_unlink_fails :: inline_env where
  "env_unlink_fails =
     \<lparr>tmpdir = ''/tmp'', randomUUID = ''u1'', join = (\<lambda>dir name. dir @ ''/'' @ name),
      writeFile_fails = None, spawn_throws = None,
      child_events = [StdoutData ''done'', Close (Some 0)],
      unlink_fails = Some (ErrorObject ''EPERM: operation not permitted, unlink'')\<rparr>"

definition env_spawn_throws :: inline_env where
  "env_spawn_throws =
     \<lparr>tmpdir = ''/tmp'', randomUUID = ''u1'', join = (\<lambda>dir name. dir @ ''/'' @ name),
      writeFile_fails = None, spawn_throws = Some (ErrorObject ''spawn ENOTDIR''),
      child_events = [], unlink_fails = None\<rparr>"

section \<open>Diagnostics (GodotLSPClient.parseDiagnostics)\<close>

text \<open>
  The positions and severities of diagnostics come from the peer, so they are JavaScript
  numbers of any size. A \<open>number\<close> is a double: a finite one is given by the rational
  it denotes (the sign of zero is dropped), the others are \<open>NaN\<close> and the two infinities.
\<close>

datatype number = Finite rat | NaN | Infinity | NegInfinity

fun bit_length :: "nat \<Rightarrow> nat" where
  "bit_length n = (if n = 0 then 0 else Suc (bit_length (n div 2)))"

declare bit_length.simps [simp del]

text \<open>
  The sum of two doubles is the exact sum rounded to 53 significant bits, ties to the
  even mantissa. \<open>round_to_double\<close> rounds the exact sum \<open>x + 1\<close> of a double \<open>x\<close>: the
  sum is a multiple of the unit of \<open>x\<close>, so it is a double whenever its numerator has
  at most 53 bits (or is \<open>2 ^ 53\<close>); otherwise the numerator is cut to 53 bits. The
  result never exceeds the largest double.
\<close>

definition round_to_double :: "rat \<Rightarrow> number" where
  "round_to_double q =
     (let (a, b) = quotient_of q; n = nat \<bar>a\<bar>
      in if n \<le> 2 ^ 53 then Finite q
         else
           let k = bit_length n - 53;
               m = n div 2 ^ k;
               r = n mod 2 ^ k;
               m' = (if 2 ^ k < 2 * r \<or> (2 * r = 2 ^ k \<and> odd m) then m + 1 else m);
               v = of_nat (m' * 2 ^ k) / of_int b
           in Finite (if 0 < a then v else - v))"

text \<open>\<open>x + 1\<close>, where \<open>x\<close> is a number or \<open>undefined\<close> (an absent field).\<close>

fun plus_one :: "number option \<Rightarrow> number" where
  "plus_one None = NaN"
| "plus_one (Some (Finite x)) = round_to_double (x + 1)"
| "plus_one (Some NaN) = NaN"
| "plus_one (Some Infinity) = Infinity"
| "plus_one (Some NegInfinity) = NegInfinity"

text \<open>
  The entries of the result and the records of the input. The cast in
  \<open>parseDiagnostics\<close> is not checked when the program runs, so every field of an input
  record may be absent (\<open>None\<close>); a field that is present has the type the cast
  declares.
\<close>

record GDScriptError =
  line :: number
  column :: number
  message :: "string option"
  severity :: string

type_synonym GDScriptWarning = GDScriptError

record position =
  line :: "number option"
  column :: "number option"

record range =
  start :: "position option"
  "end" :: "position option"

record LSPDiagnostic =
  range :: "range option"
  message :: "string option"
  severity :: "number option"

text \<open>The parameter as the function casts it: an object with an optional list.\<close>

record diagnostics_params =
  diagnostics :: "LSPDiagnostic list option"

record diagnostics_result =
  errors :: "GDScriptError list"
  warnings :: "GDScriptWarning list"

datatype js_error = TypeError

text \<open>
  \<open>diag.range.start\<close>: reading a property of \<open>undefined\<close> throws a \<open>TypeError\<close>.
\<close>

definition range_start :: "LSPDiagnostic \<Rightarrow> js_error + position" where
  "range_start diag =
     (case LSPDiagnostic.range diag of
        None \<Rightarrow> Inl TypeError
      | Some r \<Rightarrow> (case start r of None \<Rightarrow> Inl TypeError | Some p \<Rightarrow> Inr p))"

text \<open>
  The rest of the loop body: the entry is built, then pushed on \<open>errors\<close> when the
  severity is strictly equal to 1, on \<open>warnings\<close> when it is strictly equal to 2.
\<close>

definition push_entry :: "position \<Rightarrow> LSPDiagnostic \<Rightarrow> diagnostics_result \<Rightarrow> diagnostics_result" where
  "push_entry p diag acc =
     (let l = plus_one (position.line p);
          c = plus_one (position.column p);
          m = LSPDiagnostic.message diag
      in if LSPDiagnostic.severity diag = Some (Finite 1)
         then acc\<lparr>errors := errors acc @
                [\<lparr>GDScriptError.line = l, column = c, message = m, severity = ''error''\<rparr>]\<rparr>
         else if LSPDiagnostic.severity diag = Some (Finite 2)
         then acc\<lparr>warnings := warnings acc @
                [\<lparr>GDScriptError.line = l, column = c, message = m, severity = ''warning''\<rparr>]\<rparr>
         else acc)"

text \<open>
  The \<open>for\<close> loop over the records. A \<open>TypeError\<close> leaves the loop and the function.
\<close>

fun diagnostics_loop ::
  "LSPDiagnostic list \<Rightarrow> diagnostics_result \<Rightarrow> js_error + diagnostics_result" where
  "diagnostics_loop [] acc = Inr acc"
| "diagnostics_loop (diag # rest) acc =
     (case range_start diag of
        Inl e \<Rightarrow> Inl e
      | Inr p \<Rightarrow> diagnostics_loop rest (push_entry p diag acc))"

definition parseDiagnostics :: "diagnostics_params option \<Rightarrow> js_error + diagnostics_result" where
  "parseDiagnostics params =
     diagnostics_loop
       (case params of
          None \<Rightarrow> []
        | Some p \<Rightarrow> (case diagnostics p of None \<Rightarrow> [] | Some ds \<Rightarrow> ds))
       \<lparr>errors = [], warnings = []\<rparr>"

text \<open>
  A raw diagnostic record as the specification describes it: a 0-based line and column,
  a message and an integer severity code (and any end position). \<open>as_sent\<close> is the
  object the peer sends for it. The safe integers are those of magnitude below
  \<open>2 ^ 53\<close>.
\<close>

record raw_diagnostic =
  raw_line :: int
  raw_column :: int
  raw_end :: "position option"
  raw_message :: string
  raw_severity :: int

definition as_sent :: "raw_diagnostic \<Rightarrow> LSPDiagnostic" where
  "as_sent r =
     \<lparr>range = Some \<lparr>start = Some \<lparr>position.line = Some (Finite (of_int (raw_line r))),
                                     column = Some (Finite (of_int (raw_column r)))\<rparr>,
                     end = raw_end r\<rparr>,
      message = Some (raw_message r),
      severity = Some (Finite (of_int (raw_severity r)))\<rparr>"

definition safe_integer :: "int \<Rightarrow> bool" where
  "safe_integer n \<longleftrightarrow> - (2 ^ 53) < n \<and> n < 2 ^ 53"

section \<open>The language-server client (src/godot/lsp-client.ts)\<close>

text \<open>
  Payloads are JSON values. The interface \<open>LSPMessage\<close> is the envelope: \<open>id\<close>,
  \<open>method\<close> and \<open>params\<close> are optional.
\<close>

datatype json =
    JNull
  | JBool bool
  | JNum int
  | JStr string
  | JArr "json list"
  | JObj "(string \<times> json) list"

record LSPMessage =
  jsonrpc :: string
  msg_id :: "int option"
  "method" :: "string option"
  params :: "json option"

text \<open>
  What the environment supplies: \<open>JSON.parse\<close> followed by the cast to \<open>LSPMessage\<close>
  (\<open>None\<close> for a line at which the loop body throws), and \<open>process.pid\<close>.
\<close>

record lsp_env =
  JSON_parse :: "string \<Rightarrow> LSPMessage option"
  pid :: int

text \<open>
  Every call of \<open>connect\<close> creates a socket and returns a promise. Cell \<open>k\<close> of the heap
  holds the socket of the \<open>k\<close>-th call and the state of the promise that call returned.
\<close>

record socket =
  destroyed :: bool
  connectPromise :: "bool option"

text \<open>How the promise of one \<open>sendRequest\<close> call was settled.\<close>

datatype outcome = Resolved "json option" | RejectedWith string

text \<open>
  The fields of \<open>GodotLSPClient\<close>, and the event loop around them (\<open>port\<close> only names
  the peer and is left out). \<open>client\<close> refers to a heap cell. An entry of
  \<open>pendingRequests\<close> holds the \<open>resolve\<close> and \<open>reject\<close> functions of the promise of the
  call that stored it; the promise is named by the id that call drew. \<open>written\<close> lists
  the calls of \<open>write\<close>, each with the socket it was called on and the envelope it was
  given, and \<open>settlements\<close> the calls of a request promise's \<open>resolve\<close> or \<open>reject\<close>,
  both oldest first. \<open>timers\<close> are the request timeouts that have been set and have not
  fired, \<open>handshakes\<close> the requests whose promise carries the \<open>then\<close> and \<open>catch\<close> of
  a \<open>connect\<close> call, and \<open>microtasks\<close> the reactions of settled promises that wait for
  the running handler to return.
\<close>

record lsp_client =
  projectPath :: string
  client :: "nat option"
  messageId :: int
  pendingRequests :: "int \<rightharpoonup> int"
  heap :: "socket list"
  written :: "(nat \<times> LSPMessage) list"
  settlements :: "(int \<times> outcome) list"
  timers :: "int list"
  handshakes :: "(int \<times> nat) list"
  microtasks :: "(int \<times> outcome) list"

definition createLSPClient :: "string \<Rightarrow> lsp_client" where
  "createLSPClient path =
     \<lparr>projectPath = path, client = None, messageId = 0, pendingRequests = Map.empty,
      heap = [], written = [], settlements = [], timers = [], handshakes = [],
      microtasks = []\<rparr>"

definition isConnected :: "lsp_client \<Rightarrow> bool" where
  "isConnected s =
     (case client s of
        None \<Rightarrow> False
      | Some k \<Rightarrow> k < length (heap s) \<and> \<not> destroyed (heap s ! k))"

definition getFileUri :: "string \<Rightarrow> string" where
  "getFileUri filePath = ''file:///'' @ map (\<lambda>c. if c = CHR 0x5C then CHR ''/'' else c) filePath"

text \<open>\<open>this.client?.write\<close>, and \<open>destroy\<close> and \<open>resolve\<close> on a heap cell.\<close>

definition write_client :: "LSPMessage \<Rightarrow> lsp_client \<Rightarrow> lsp_client" where
  "write_client m s =
     (case client s of
        None \<Rightarrow> s
      | Some k \<Rightarrow> s\<lparr>written := written s @ [(k, m)]\<rparr>)"

definition destroy :: "nat \<Rightarrow> lsp_client \<Rightarrow> lsp_client" where
  "destroy k s = s\<lparr>heap := (heap s)[k := (heap s ! k)\<lparr>destroyed := True\<rparr>]\<rparr>"

definition resolveConnect :: "nat \<Rightarrow> bool \<Rightarrow> lsp_client \<Rightarrow> lsp_client" where
  "resolveConnect k b s =
     (case connectPromise (heap s ! k) of
        None \<Rightarrow> s\<lparr>heap := (heap s)[k := (heap s ! k)\<lparr>connectPromise := Some b\<rparr>]\<rparr>
      | Some _ \<Rightarrow> s)"

text \<open>
  A call of \<open>resolve\<close> or \<open>reject\<close> of the promise of request \<open>h\<close>. Only the first call
  settles the promise and schedules its reactions.
\<close>

definition settle :: "int \<Rightarrow> outcome \<Rightarrow> lsp_client \<Rightarrow> lsp_client" where
  "settle h out s =
     s\<lparr>settlements := settlements s @ [(h, out)],
       microtasks := (if h \<in> set (map fst (settlements s)) then microtasks s
                      else microtasks s @ [(h, out)])\<rparr>"

definition sendRequest :: "string \<Rightarrow> json \<Rightarrow> lsp_client \<Rightarrow> string + (int \<times> lsp_client)" where
  "sendRequest meth ps s =
     (if client s = None then Inl ''Not connected''
      else
        let i = messageId s + 1;
            s1 = s\<lparr>messageId := i\<rparr>;
            s2 = s1\<lparr>pendingRequests := (pendingRequests s1)(i \<mapsto> i)\<rparr>;
            s3 = write_client
                   \<lparr>jsonrpc = ''2.0'', msg_id = Some i, method = Some meth, params = Some ps\<rparr> s2
        in Inr (i, s3\<lparr>timers := timers s3 @ [i]\<rparr>))"

definition sendNotification :: "string \<Rightarrow> json \<Rightarrow> lsp_client \<Rightarrow> lsp_client" where
  "sendNotification meth ps s =
     (if client s = None then s
      else write_client
             \<lparr>jsonrpc = ''2.0'', msg_id = None, method = Some meth, params = Some ps\<rparr> s)"

text \<open>The callback of the timer that \<open>sendRequest\<close> sets for request \<open>i\<close>.\<close>

definition request_timeout :: "int \<Rightarrow> lsp_client \<Rightarrow> lsp_client" where
  "request_timeout i s =
     (if pendingRequests s i \<noteq> None
      then settle i (RejectedWith ''Request timeout'')
             (s\<lparr>pendingRequests := (pendingRequests s)(i := None)\<rparr>)
      else s)"

text \<open>\<open>split\<close> of a string at a one-character separator: the pieces between the
  separators, empty ones included.\<close>

fun split :: "char \<Rightarrow> string \<Rightarrow> string list" where
  "split sep [] = [[]]"
| "split sep (c # cs) =
     (if c = sep then [] # split sep cs
      else (case split sep cs of
              [] \<Rightarrow> [[c]]
            | piece # pieces \<Rightarrow> (c # piece) # pieces))"

text \<open>
  The body of the \<open>for\<close> loop of \<open>handleMessage\<close> once the line is parsed: the test
  \<open>parsed.id && this.pendingRequests.has(parsed.id)\<close>, then \<open>get\<close>, \<open>delete\<close> and
  \<open>resolve(parsed.params)\<close>. The keys of the map are integers, so an \<open>id\<close> of any
  other kind fails the test like an absent one.
\<close>

definition on_message :: "LSPMessage \<Rightarrow> lsp_client \<Rightarrow> lsp_client" where
  "on_message parsed s =
     (case msg_id parsed of
        None \<Rightarrow> s
      | Some i \<Rightarrow>
          (if i \<noteq> 0
           then (case pendingRequests s i of
                   None \<Rightarrow> s
                 | Some h \<Rightarrow>
                     settle h (Resolved (params parsed))
                       (s\<lparr>pendingRequests := (pendingRequests s)(i := None)\<rparr>))
           else s))"

text \<open>
  The loop sits inside the \<open>try\<close> block, so a line at which the body throws ends the
  loop with the state reached so far; the \<open>catch\<close> block does nothing.
\<close>

datatype loop_exit = Completed lsp_client | Threw lsp_client

fun message_loop :: "lsp_env \<Rightarrow> string list \<Rightarrow> lsp_client \<Rightarrow> loop_exit" where
  "message_loop env [] s = Completed s"
| "message_loop env (msg # rest) s =
     (case JSON_parse env msg of
        None \<Rightarrow> Threw s
      | Some parsed \<Rightarrow> message_loop env rest (on_message parsed s))"

text \<open>\<open>data.split('\n').filter(Boolean)\<close>: the non-empty lines of one \<open>data\<close> event.\<close>

definition messages :: "string \<Rightarrow> string list" where
  "messages data = filter (\<lambda>l. l \<noteq> []) (split (CHR 0x0A) data)"

definition handleMessage :: "lsp_env \<Rightarrow> string \<Rightarrow> lsp_client \<Rightarrow> lsp_client" where
  "handleMessage env data s =
     (case message_loop env (messages data) s of
        Completed s' \<Rightarrow> s'
      | Threw s' \<Rightarrow> s')"

text \<open>
  The reactions of a settled request promise. The promise of the \<open>initialize\<close> request
  of \<open>connect\<close> call \<open>k\<close> carries \<open>then\<close> (send \<open>initialized\<close>, resolve \<open>true\<close>) and
  \<open>catch\<close> (resolve \<open>false\<close>); the promises awaited by the public operations have
  reactions that only compute the caller's return value.
\<close>

fun reaction :: "lsp_client \<Rightarrow> int \<times> outcome \<Rightarrow> lsp_client" where
  "reaction s (h, out) =
     (case map_of (handshakes s) h of
        None \<Rightarrow> s
      | Some k \<Rightarrow>
          (case out of
             Resolved v \<Rightarrow> resolveConnect k True (sendNotification ''initialized'' (JObj []) s)
           | RejectedWith m \<Rightarrow> resolveConnect k False s))"

definition drain :: "lsp_client \<Rightarrow> lsp_client" where
  "drain s = foldl reaction (s\<lparr>microtasks := []\<rparr>) (microtasks s)"

text \<open>
  What happens to a client: calls of \<open>connect\<close>, \<open>disconnect\<close> and \<open>sendRequest\<close> (the
  last by the public operations), the \<open>connect\<close> listener and the \<open>error\<close> and \<open>data\<close>
  events of socket \<open>k\<close>, the end of the connection of socket \<open>k\<close> without an error (the
  peer closes it), and the expiry of the timer of request \<open>i\<close>. A socket that emits
  \<open>error\<close> has been destroyed by the time the listener runs; a socket whose connection
  has ended is destroyed as well, and the client has no listener for that.
\<close>

datatype lsp_event =
    CallConnect
  | CallDisconnect
  | CallSendRequest string json
  | SocketConnected nat
  | SocketError nat
  | SocketData nat string
  | SocketClosed nat
  | RequestTimer int

fun step :: "lsp_env \<Rightarrow> lsp_client \<Rightarrow> lsp_event \<Rightarrow> lsp_client" where
  "step env s CallConnect =
     s\<lparr>client := Some (length (heap s)),
       heap := heap s @ [\<lparr>destroyed = False, connectPromise = None\<rparr>]\<rparr>"
| "step env s CallDisconnect =
     (case client s of
        None \<Rightarrow> s
      | Some k \<Rightarrow> (destroy k s)\<lparr>client := None\<rparr>)"
| "step env s (CallSendRequest meth ps) =
     (case sendRequest meth ps s of
        Inl err \<Rightarrow> s
      | Inr (i, s') \<Rightarrow> s')"
| "step env s (SocketConnected k) =
     (if k < length (heap s)
      then (case sendRequest ''initialize''
                   (JObj [(''processId'', JNum (pid env)),
                          (''rootUri'', JStr (getFileUri (projectPath s))),
                          (''capabilities'', JObj [])]) s of
              Inl err \<Rightarrow> resolveConnect k False s
            | Inr (i, s') \<Rightarrow> s'\<lparr>handshakes := handshakes s' @ [(i, k)]\<rparr>)
      else s)"
| "step env s (SocketError k) =
     (if k < length (heap s) then resolveConnect k False (destroy k s) else s)"
| "step env s (SocketData k data) =
     (if k < length (heap s) then drain (handleMessage env data s) else s)"
| "step env s (SocketClosed k) =
     (if k < length (heap s) then destroy k s else s)"
| "step env s (RequestTimer i) =
     (if i \<in> set (timers s)
      then drain (request_timeout i (s\<lparr>timers := removeAll i (timers s)\<rparr>))
      else s)"

definition run :: "lsp_env \<Rightarrow> lsp_client \<Rightarrow> lsp_event list \<Rightarrow> lsp_client" where
  "run env s es = foldl (step env) s es"

text \<open>Two lines and a parser for them, for the concrete runs below.\<close>

definition response_1 :: string where
  \<open>response_1 = ''{"jsonrpc":"2.0","id":1,"result":null}''\<close>

definition garbage :: string where
  "garbage = ''Content-Length: 38''"

definition sample_parse :: "string \<Rightarrow> LSPMessage option" where
  "sample_parse l =
     (if l = response_1
      then Some \<lparr>jsonrpc = ''2.0'', msg_id = Some 1, method = None, params = None\<rparr>
      else None)"

definition sample_env :: lsp_env where
  "sample_env = \<lparr>JSON_parse = sample_parse, pid = 4242\<rparr>"

text \<open>
  The correlation ids on the wire: the ids of the envelopes written that carry one (the
  requests), in the order written; and the calls of \<open>write\<close> on one socket.
\<close>

fun request_ids :: "(nat \<times> LSPMessage) list \<Rightarrow> int list" where
  "request_ids [] = []"
| "request_ids ((k, m) # ws) =
     (case msg_id m of None \<Rightarrow> request_ids ws | Some i \<Rightarrow> i # request_ids ws)"

definition on_socket :: "nat \<Rightarrow> (nat \<times> LSPMessage) list \<Rightarrow> (nat \<times> LSPMessage) list" where
  "on_socket k ws = filter (\<lambda>w. fst w = k) ws"

text \<open>
  Invariants of the client. The ids written so far are \<open>1, \<dots>, messageId\<close>. For every integer \<open>i\<close>: an entry under key \<open>i\<close> belongs to
  the promise of request \<open>i\<close>, which has been issued and not settled; without an entry,
  \<open>i\<close> is settled exactly when it has been issued.
\<close>

definition slot_ok :: "lsp_client \<Rightarrow> int \<Rightarrow> bool" where
  "slot_ok s i =
     (case pendingRequests s i of
        Some h \<Rightarrow> h = i \<and> 1 \<le> i \<and> i \<le> messageId s \<and> i \<notin> set (map fst (settlements s))
      | None \<Rightarrow> (i \<in> set (map fst (settlements s))) = (1 \<le> i \<and> i \<le> messageId s))"

definition ids_inv :: "lsp_client \<Rightarrow> bool" where
  "ids_inv s \<longleftrightarrow>
     0 \<le> messageId s \<and> request_ids (written s) = [1..messageId s] \<and>
     distinct (map fst (settlements s)) \<and> (\<forall>i. slot_ok s i)"

text \<open>
  Between two events no reaction is waiting, every pending request still has its timer,
  and the requests of the handshakes have been issued.
\<close>

definition loop_inv :: "lsp_client \<Rightarrow> bool" where
  "loop_inv s \<longleftrightarrow>
     microtasks s = [] \<and>
     (\<forall>i. pendingRequests s i \<noteq> None \<longrightarrow> i \<in> set (timers s)) \<and>
     (\<forall>i \<in> set (map fst (handshakes s)). i \<le> messageId s)"

section \<open>Properties of the executor\<close>

lemma resolve_fields [simp]:
  "outputVar (resolve r s) = outputVar s"
  "errorOutputVar (resolve r s) = errorOutputVar s"
  "timeoutId (resolve r s) = timeoutId s"
  "killed (resolve r s) = killed s"
  by (simp_all add: resolve_def split: option.splits)

lemma resolve_promise [simp]:
  "promise (resolve r s) = (case promise s of None \<Rightarrow> Some r | Some q \<Rightarrow> Some q)"
  by (simp add: resolve_def split: option.splits)

lemma clearTimeout_fields [simp]:
  "outputVar (clearTimeout s) = outputVar s"
  "errorOutputVar (clearTimeout s) = errorOutputVar s"
  "killed (clearTimeout s) = killed s"
  "promise (clearTimeout s) = promise s"
  "timeoutId (clearTimeout s) = (if timeoutId s = Armed then Cleared else timeoutId s)"
  by (simp_all add: clearTimeout_def)

lemma stdout_text_append [simp]: "stdout_text (xs @ ys) = stdout_text xs @ stdout_text ys"
  by (induction xs rule: stdout_text.induct) simp_all

lemma stderr_text_append [simp]: "stderr_text (xs @ ys) = stderr_text xs @ stderr_text ys"
  by (induction xs rule: stderr_text.induct) simp_all

text \<open>While only pipe data arrives, nothing but the accumulators changes.\<close>

lemma data_prefix:
  assumes "\<forall>e \<in> set pre. is_data e"
  shows "foldl (on_event c) s pre =
           s\<lparr>outputVar := outputVar s @ captured c (stdout_text pre),
             errorOutputVar := errorOutputVar s @ captured c (stderr_text pre)\<rparr>"
  using assms
proof (induction pre arbitrary: s)
  case Nil
  then show ?case by (simp add: captured_def)
next
  case (Cons e pre)
  then show ?case by (cases e) (simp_all add: captured_def)
qed

lemma execute_data_prefix:
  assumes "\<forall>e \<in> set pre. is_data e"
  shows "execute c pre =
           spawned\<lparr>outputVar := captured c (stdout_text pre),
                   errorOutputVar := captured c (stderr_text pre)\<rparr>"
  using data_prefix [OF assms, of c spawned] by (simp add: execute_def spawned_def)

text \<open>A settled promise, a timer that is no longer armed and the kill log are stable.\<close>

lemma promise_settled_step: "promise s = Some r \<Longrightarrow> promise (on_event c s e) = Some r"
  by (cases e) (simp_all add: Let_def)

lemma promise_settled: "promise s = Some r \<Longrightarrow> promise (foldl (on_event c) s es) = Some r"
  by (induction es arbitrary: s) (simp_all add: promise_settled_step)

lemma disarmed_step:
  "timeoutId s \<noteq> Armed \<Longrightarrow>
     timeoutId (on_event c s e) = timeoutId s \<and> killed (on_event c s e) = killed s"
  by (cases e) (simp_all add: Let_def)

lemma disarmed:
  "timeoutId s \<noteq> Armed \<Longrightarrow>
     timeoutId (foldl (on_event c) s es) = timeoutId s \<and>
     killed (foldl (on_event c) s es) = killed s"
proof (induction es arbitrary: s)
  case Nil
  then show ?case by simp
next
  case (Cons e es)
  from Cons.prems have step:
    "timeoutId (on_event c s e) = timeoutId s" "killed (on_event c s e) = killed s"
    using disarmed_step [of s c e] by simp_all
  with Cons.prems have "timeoutId (on_event c s e) \<noteq> Armed" by simp
  from Cons.IH [OF this] step show ?case by simp
qed

lemma execute_split:
  "execute c (pre @ e # post) = foldl (on_event c) (on_event c (execute c pre) e) post"
  by (simp add: execute_def)

text \<open>
  Claim C1, as stated, at a child that handles \<open>SIGTERM\<close>: the timer fires, the call
  resolves with the timeout result and the one signal is sent, and the child writes on
  and later ends by itself with exit code 0. It has not been terminated by force.
\<close>

theorem child_survives_timeout:
  "promise (execute True [StdoutData ''a'', TimerFires, StdoutData ''b'', Close (Some 0)]) =
     Some \<lparr>success = False, output = ''a'',
           error = Some ''Process timed out'', exitCode = Some (- 1)\<rparr> \<and>
   killed (execute True [StdoutData ''a'', TimerFires, StdoutData ''b'', Close (Some 0)]) =
     [SIGTERM] \<and>
   outputVar (execute True [StdoutData ''a'', TimerFires, StdoutData ''b'', Close (Some 0)]) =
     ''ab'' \<and>
   child_exit [StdoutData ''a'', TimerFires, StdoutData ''b'', Close (Some 0)] = Some (Some 0)"
  by (simp add: execute_def spawned_def Let_def)

text \<open>
  Claim C1, amended. When the timer fires and only pipe data has arrived before it (no
  \<open>close\<close> and no \<open>error\<close> event), the call resolves with \<open>success = false\<close>, the error
  text \<open>Process timed out\<close>, exit code \<open>-1\<close> and the standard-output text captured up
  to that moment, whatever events follow; and the executor calls \<open>kill\<close> on the child
  exactly once, with \<open>SIGTERM\<close>, and sends no other signal, whatever the child does
  afterwards.
\<close>

theorem execute_timeout:
  assumes "\<forall>e \<in> set pre. is_data e"
  shows "promise (execute c (pre @ TimerFires # post)) =
           Some \<lparr>success = False, output = captured c (stdout_text pre),
                 error = Some ''Process timed out'', exitCode = Some (- 1)\<rparr> \<and>
         killed (execute c (pre @ TimerFires # post)) = [SIGTERM]"
proof -
  let ?s = "on_event c (execute c pre) TimerFires"
  have s: "promise ?s = Some \<lparr>success = False, output = captured c (stdout_text pre),
                 error = Some ''Process timed out'', exitCode = Some (- 1)\<rparr>"
          "timeoutId ?s \<noteq> Armed" "killed ?s = [SIGTERM]"
    by (simp_all add: execute_data_prefix [OF assms] spawned_def)
  show ?thesis
    unfolding execute_split
    using promise_settled [OF s(1), of c post] disarmed [OF s(2), of c post] s(3) by simp
qed

theorem execute_timeout_witness:
  "promise (execute True [StdoutData ''ab'', StderrData ''w'', StdoutData ''c'', TimerFires,
       StdoutData ''late'', Close None]) =
     Some \<lparr>success = False, output = ''abc'',
           error = Some ''Process timed out'', exitCode = Some (- 1)\<rparr> \<and>
   killed (execute True [StdoutData ''ab'', StderrData ''w'', StdoutData ''c'', TimerFires,
       StdoutData ''late'', Close None]) = [SIGTERM]"
  using execute_timeout [of "[StdoutData ''ab'', StderrData ''w'', StdoutData ''c'']" True
      "[StdoutData ''late'', Close None]"]
  by (simp add: captured_def)

text \<open>
  Claim C2. When the \<open>close\<close> event arrives with exit code \<open>n\<close> and only pipe data has
  arrived before it, the timer is cancelled (and no signal is ever sent), and the call
  resolves with \<open>success\<close> true exactly when \<open>n = 0\<close>, with \<open>exitCode = n\<close>, and with
  \<open>error\<close> the accumulated standard-error text when that is not empty and absent
  otherwise.
\<close>

theorem execute_close:
  assumes "\<forall>e \<in> set pre. is_data e"
  shows "promise (execute c (pre @ Close (Some n) # post)) =
           Some \<lparr>success = (n = 0), output = captured c (stdout_text pre),
                 error = (if captured c (stderr_text pre) = [] then None
                          else Some (captured c (stderr_text pre))),
                 exitCode = Some n\<rparr> \<and>
         timeoutId (execute c (pre @ Close (Some n) # post)) = Cleared \<and>
         killed (execute c (pre @ Close (Some n) # post)) = []"
proof -
  let ?s = "on_event c (execute c pre) (Close (Some n))"
  have s: "promise ?s = Some \<lparr>success = (n = 0), output = captured c (stdout_text pre),
                 error = (if captured c (stderr_text pre) = [] then None
                          else Some (captured c (stderr_text pre))),
                 exitCode = Some n\<rparr>"
          "timeoutId ?s \<noteq> Armed" "timeoutId ?s = Cleared" "killed ?s = []"
    by (simp_all add: execute_data_prefix [OF assms] spawned_def Let_def)
  show ?thesis
    unfolding execute_split
    using promise_settled [OF s(1), of c post] disarmed [OF s(2), of c post] s(3,4) by simp
qed

theorem execute_close_witness:
  "promise (execute True [StdoutData ''ok'', StderrData ''warn'', Close (Some 3), TimerFires]) =
     Some \<lparr>success = False, output = ''ok'', error = Some ''warn'', exitCode = Some 3\<rparr> \<and>
   timeoutId (execute True [StdoutData ''ok'', StderrData ''warn'', Close (Some 3), TimerFires])
     = Cleared \<and>
   killed (execute True [StdoutData ''ok'', StderrData ''warn'', Close (Some 3), TimerFires]) = []"
  using execute_close [of "[StdoutData ''ok'', StderrData ''warn'']" True 3 "[TimerFires]"]
  by (simp add: captured_def)

text \<open>
  Claim C10. When the \<open>close\<close> event reports a \<open>null\<close> exit code and only pipe data has
  arrived before it, the call resolves with \<open>success = false\<close> and with \<open>exitCode\<close>
  absent, not \<open>-1\<close>; the captured output is attached, and the accumulated
  standard-error text is the error when it is not empty.
\<close>

theorem execute_close_null:
  assumes "\<forall>e \<in> set pre. is_data e"
  shows "promise (execute c (pre @ Close None # post)) =
           Some \<lparr>success = False, output = captured c (stdout_text pre),
                 error = (if captured c (stderr_text pre) = [] then None
                          else Some (captured c (stderr_text pre))),
                 exitCode = None\<rparr>"
proof -
  let ?s = "on_event c (execute c pre) (Close None)"
  have "promise ?s = Some \<lparr>success = False, output = captured c (stdout_text pre),
                 error = (if captured c (stderr_text pre) = [] then None
                          else Some (captured c (stderr_text pre))),
                 exitCode = None\<rparr>"
    by (simp add: execute_data_prefix [OF assms] spawned_def Let_def)
  from promise_settled [OF this, of c post] show ?thesis
    unfolding execute_split .
qed

theorem execute_close_null_witness:
  "promise (execute True [StdoutData ''partial'', StderrData ''Killed'', Close None]) =
     Some \<lparr>success = False, output = ''partial'', error = Some ''Killed'', exitCode = None\<rparr>"
  using execute_close_null [of "[StdoutData ''partial'', StderrData ''Killed'']" True "[]"]
  by (simp add: captured_def)

section \<open>Properties of inline scripts\<close>

text \<open>
  Claim C5, as stated, at a concrete call: the run completes with a successful result,
  the deletion fails, and the call returns a different result.
\<close>

theorem cleanup_failure_masks_result:
  "runScript env_unlink_fails =
     Some (Fulfilled \<lparr>success = True, output = ''done'', error = None, exitCode = Some 0\<rparr>) \<and>
   unlink_fails env_unlink_fails = Some (ErrorObject ''EPERM: operation not permitted, unlink'') \<and>
   map_option snd (runInlineScript env_unlink_fails ''print(1)'' Map.empty) \<noteq>
     Some \<lparr>success = True, output = ''done'', error = None, exitCode = Some 0\<rparr>"
  by (simp add: runInlineScript_def runScript_def env_unlink_fails_def execute_def spawned_def
      writeFile_def unlink_def caught_def Let_def)

text \<open>
  Claim C5, amended. When the scratch file is written, the run completes with a result
  \<open>R\<close> and the deletion fails, the failure is not ignored: the \<open>catch\<close> block replaces
  \<open>R\<close> by \<open>success = false\<close>, empty output, exit code \<open>-1\<close> and, as error text, the
  message of the deletion error (\<open>Unknown error\<close> when what was thrown is not an
  \<open>Error\<close>).
\<close>

theorem cleanup_failure_reported:
  assumes "writeFile_fails env = None" "runScript env = Some (Fulfilled R)"
    "unlink_fails env = Some t"
  shows "map_option snd (runInlineScript env code fs) =
           Some \<lparr>success = False, output = [],
                 error = Some (case t of ErrorObject m \<Rightarrow> m | OtherValue \<Rightarrow> ''Unknown error''),
                 exitCode = Some (- 1)\<rparr>"
  using assms by (simp add: runInlineScript_def writeFile_def unlink_def caught_def)

theorem cleanup_failure_reported_witness:
  "map_option snd (runInlineScript env_unlink_fails ''print(1)'' Map.empty) =
     Some \<lparr>success = False, output = [],
           error = Some ''EPERM: operation not permitted, unlink'', exitCode = Some (- 1)\<rparr>"
  using cleanup_failure_reported [of env_unlink_fails
      "\<lparr>success = True, output = ''done'', error = None, exitCode = Some 0\<rparr>"
      "ErrorObject ''EPERM: operation not permitted, unlink''" "''print(1)''" Map.empty]
  by (simp add: runScript_def env_unlink_fails_def execute_def spawned_def Let_def)

text \<open>
  Claim C7 at a call where the write succeeds and the run throws: \<open>unlink\<close> is skipped,
  and the scratch file exists when the call returns.
\<close>

theorem scratch_file_left_when_run_throws:
  "runInlineScript env_spawn_throws ''print(1)'' Map.empty =
     Some (Map.empty(''/tmp/godot_mcp_u1.gd'' \<mapsto> ''print(1)''),
           \<lparr>success = False, output = [], error = Some ''spawn ENOTDIR'',
            exitCode = Some (- 1)\<rparr>)"
  by (simp add: runInlineScript_def runScript_def env_spawn_throws_def tempFile_def
      writeFile_def caught_def)

text \<open>
  On the path without a throw the file is removed: when the run settles with a result
  (a zero or nonzero exit, or the timeout) and the deletion succeeds, the call returns
  that result and the scratch file is gone.
\<close>

lemma scratch_file_removed:
  assumes "writeFile_fails env = None" "runScript env = Some (Fulfilled R)"
    "unlink_fails env = None"
  shows "\<exists>fs'. runInlineScript env code fs = Some (fs', R) \<and> fs' (tempFile env) = None"
  using assms by (simp add: runInlineScript_def writeFile_def unlink_def)

section \<open>Properties of the diagnostics translation\<close>

lemma round_to_double_int:
  "\<bar>n\<bar> \<le> 2 ^ 53 \<Longrightarrow> round_to_double (of_int n) = Finite (of_int n)"
proof -
  assume "\<bar>n\<bar> \<le> 2 ^ 53"
  then have "nat \<bar>n\<bar> \<le> 2 ^ 53" by simp
  then show ?thesis by (simp add: round_to_double_def Let_def)
qed

lemma plus_one_safe:
  assumes "safe_integer n"
  shows "plus_one (Some (Finite (of_int n))) = Finite (of_int (n + 1))"
proof -
  from assms have "\<bar>n + 1\<bar> \<le> 2 ^ 53" by (auto simp add: safe_integer_def abs_le_iff)
  from round_to_double_int [OF this] show ?thesis by simp
qed

lemma diagnostics_loop_safe:
  assumes "\<forall>r \<in> set rs. safe_integer (raw_line r) \<and> safe_integer (raw_column r)"
  shows "diagnostics_loop (map as_sent rs) acc =
     Inr \<lparr>errors = errors acc @
        map (\<lambda>r. \<lparr>GDScriptError.line = Finite (of_int (raw_line r + 1)),
                  column = Finite (of_int (raw_column r + 1)),
                  message = Some (raw_message r), severity = ''error''\<rparr>)
            (filter (\<lambda>r. raw_severity r = 1) rs),
      warnings = warnings acc @
        map (\<lambda>r. \<lparr>GDScriptError.line = Finite (of_int (raw_line r + 1)),
                  column = Finite (of_int (raw_column r + 1)),
                  message = Some (raw_message r), severity = ''warning''\<rparr>)
            (filter (\<lambda>r. raw_severity r = 2) rs)\<rparr>"
  using assms
proof (induction rs arbitrary: acc)
  case Nil
  show ?case by simp
next
  case (Cons r rs)
  from Cons.prems have safe: "safe_integer (raw_line r)" "safe_integer (raw_column r)"
    and rest: "\<forall>r \<in> set rs. safe_integer (raw_line r) \<and> safe_integer (raw_column r)"
    by simp_all
  have start: "range_start (as_sent r) =
      Inr \<lparr>position.line = Some (Finite (of_int (raw_line r))),
           column = Some (Finite (of_int (raw_column r)))\<rparr>"
    by (simp add: range_start_def as_sent_def)
  have sev: "LSPDiagnostic.severity (as_sent r) = Some (Finite (of_int (raw_severity r)))"
    "LSPDiagnostic.message (as_sent r) = Some (raw_message r)"
    by (simp_all add: as_sent_def)
  have one: "(of_int (raw_severity r) = (1::rat)) = (raw_severity r = 1)"
    and two: "(of_int (raw_severity r) = (2::rat)) = (raw_severity r = 2)"
    using of_int_eq_iff [of "raw_severity r" 1, where 'a = rat]
      of_int_eq_iff [of "raw_severity r" 2, where 'a = rat] by simp_all
  show ?case
    by (simp add: start Cons.IH [OF rest] push_entry_def sev one two
        plus_one_safe [OF safe(1)] plus_one_safe [OF safe(2)] Let_def
        del: plus_one.simps)
qed

lemma bit_length_2_53_1: "bit_length 9007199254740993 = 54"
  by (simp add: bit_length.simps)

lemma plus_one_2_53: "plus_one (Some (Finite 9007199254740992)) = Finite 9007199254740992"
  by (simp add: round_to_double_def bit_length_2_53_1 Let_def)

lemma plus_one_zero: "plus_one (Some (Finite 0)) = Finite 1"
  by (simp add: round_to_double_def)

text \<open>
  Claim C8, as stated, at a list of one record of severity 1 on line \<open>2 ^ 53\<close>: the
  line of the entry is the line of the input, not one more.
\<close>

theorem line_not_incremented_at_2_53:
  "parseDiagnostics (Some \<lparr>diagnostics = Some
      [as_sent \<lparr>raw_line = 9007199254740992, raw_column = 0, raw_end = None,
                raw_message = ''x'', raw_severity = 1\<rparr>]\<rparr>) =
   Inr \<lparr>errors = [\<lparr>GDScriptError.line = Finite 9007199254740992, column = Finite 1,
                   message = Some ''x'', severity = ''error''\<rparr>],
        warnings = []\<rparr>"
  by (simp add: parseDiagnostics_def range_start_def push_entry_def as_sent_def plus_one_2_53
      plus_one_zero del: plus_one.simps)

text \<open>
  Claim C8, amended. For every list of raw records whose lines and columns are safe
  integers, \<open>errors\<close> is the list of the severity-1 records and \<open>warnings\<close> the list of
  the severity-2 records, in input order, each with \<open>line\<close> and \<open>column\<close> one more
  than the start of the input range and the message unchanged; records of any other
  integer severity are in neither list.
\<close>

theorem parseDiagnostics_lists:
  assumes "\<forall>r \<in> set rs. safe_integer (raw_line r) \<and> safe_integer (raw_column r)"
  shows "parseDiagnostics (Some \<lparr>diagnostics = Some (map as_sent rs)\<rparr>) =
     Inr \<lparr>errors =
        map (\<lambda>r. \<lparr>GDScriptError.line = Finite (of_int (raw_line r + 1)),
                  column = Finite (of_int (raw_column r + 1)),
                  message = Some (raw_message r), severity = ''error''\<rparr>)
            (filter (\<lambda>r. raw_severity r = 1) rs),
      warnings =
        map (\<lambda>r. \<lparr>GDScriptError.line = Finite (of_int (raw_line r + 1)),
                  column = Finite (of_int (raw_column r + 1)),
                  message = Some (raw_message r), severity = ''warning''\<rparr>)
            (filter (\<lambda>r. raw_severity r = 2) rs)\<rparr>"
  by (simp add: parseDiagnostics_def diagnostics_loop_safe [OF assms])

text \<open>The example of the specification: one error at 0-based (4, 9), and one hint.\<close>

theorem parseDiagnostics_lists_witness:
  "parseDiagnostics (Some \<lparr>diagnostics = Some
      [as_sent \<lparr>raw_line = 4, raw_column = 9, raw_end = None, raw_message = ''x'',
                raw_severity = 1\<rparr>,
       as_sent \<lparr>raw_line = 0, raw_column = 0, raw_end = None, raw_message = ''h'',
                raw_severity = 4\<rparr>]\<rparr>) =
   Inr \<lparr>errors = [\<lparr>GDScriptError.line = Finite 5, column = Finite 10, message = Some ''x'',
                   severity = ''error''\<rparr>],
        warnings = []\<rparr>"
  using parseDiagnostics_lists [of
      "[\<lparr>raw_line = 4, raw_column = 9, raw_end = None, raw_message = ''x'', raw_severity = 1\<rparr>,
        \<lparr>raw_line = 0, raw_column = 0, raw_end = None, raw_message = ''h'', raw_severity = 4\<rparr>]"]
  by (simp add: safe_integer_def)

text \<open>
  Absent fields: without \<open>column\<close> the entry has the column \<open>NaN\<close>; without \<open>range\<close>
  the function throws.
\<close>

lemma parseDiagnostics_no_column:
  "parseDiagnostics (Some \<lparr>diagnostics = Some
      [\<lparr>range = Some \<lparr>start = Some \<lparr>position.line = Some (Finite 4), column = None\<rparr>,
                       end = None\<rparr>,
        message = Some ''x'', severity = Some (Finite 1)\<rparr>]\<rparr>) =
   Inr \<lparr>errors = [\<lparr>GDScriptError.line = Finite 5, column = NaN, message = Some ''x'',
                   severity = ''error''\<rparr>],
        warnings = []\<rparr>"
  by (simp add: parseDiagnostics_def range_start_def push_entry_def round_to_double_def)

lemma parseDiagnostics_no_range:
  "parseDiagnostics (Some \<lparr>diagnostics = Some
      [\<lparr>range = None, message = Some ''x'', severity = Some (Finite 1)\<rparr>]\<rparr>) = Inl TypeError"
  by (simp add: parseDiagnostics_def range_start_def)

section \<open>Properties of the language-server client\<close>

text \<open>What the helpers leave unchanged.\<close>

lemma request_ids_append [simp]:
  "request_ids (ws @ ws') = request_ids ws @ request_ids ws'"
  by (induction ws rule: request_ids.induct) (simp_all split: option.splits)

lemma write_client_fields [simp]:
  "client (write_client m s) = client s"
  "messageId (write_client m s) = messageId s"
  "pendingRequests (write_client m s) = pendingRequests s"
  "heap (write_client m s) = heap s"
  "written (write_client m s) =
     (case client s of None \<Rightarrow> written s | Some k \<Rightarrow> written s @ [(k, m)])"
  "settlements (write_client m s) = settlements s"
  "timers (write_client m s) = timers s"
  "handshakes (write_client m s) = handshakes s"
  "microtasks (write_client m s) = microtasks s"
  "projectPath (write_client m s) = projectPath s"
  by (simp_all add: write_client_def split: option.splits)

lemma destroy_fields [simp]:
  "client (destroy k s) = client s"
  "messageId (destroy k s) = messageId s"
  "pendingRequests (destroy k s) = pendingRequests s"
  "written (destroy k s) = written s"
  "settlements (destroy k s) = settlements s"
  "timers (destroy k s) = timers s"
  "handshakes (destroy k s) = handshakes s"
  "microtasks (destroy k s) = microtasks s"
  "length (heap (destroy k s)) = length (heap s)"
  by (simp_all add: destroy_def)

lemma resolveConnect_fields [simp]:
  "client (resolveConnect k b s) = client s"
  "messageId (resolveConnect k b s) = messageId s"
  "pendingRequests (resolveConnect k b s) = pendingRequests s"
  "written (resolveConnect k b s) = written s"
  "settlements (resolveConnect k b s) = settlements s"
  "timers (resolveConnect k b s) = timers s"
  "handshakes (resolveConnect k b s) = handshakes s"
  "microtasks (resolveConnect k b s) = microtasks s"
  "length (heap (resolveConnect k b s)) = length (heap s)"
  by (simp_all add: resolveConnect_def split: option.splits)

lemma sendNotification_fields [simp]:
  "client (sendNotification m p s) = client s"
  "messageId (sendNotification m p s) = messageId s"
  "pendingRequests (sendNotification m p s) = pendingRequests s"
  "request_ids (written (sendNotification m p s)) = request_ids (written s)"
  "settlements (sendNotification m p s) = settlements s"
  "timers (sendNotification m p s) = timers s"
  "handshakes (sendNotification m p s) = handshakes s"
  "microtasks (sendNotification m p s) = microtasks s"
  "length (heap (sendNotification m p s)) = length (heap s)"
  by (auto simp add: sendNotification_def)

lemma reaction_fields [simp]:
  "client (reaction s x) = client s"
  "messageId (reaction s x) = messageId s"
  "pendingRequests (reaction s x) = pendingRequests s"
  "request_ids (written (reaction s x)) = request_ids (written s)"
  "settlements (reaction s x) = settlements s"
  "timers (reaction s x) = timers s"
  "handshakes (reaction s x) = handshakes s"
  "microtasks (reaction s x) = microtasks s"
  by (cases x; simp split: option.splits outcome.splits)+

lemma foldl_reaction_fields [simp]:
  "client (foldl reaction s xs) = client s"
  "messageId (foldl reaction s xs) = messageId s"
  "pendingRequests (foldl reaction s xs) = pendingRequests s"
  "request_ids (written (foldl reaction s xs)) = request_ids (written s)"
  "settlements (foldl reaction s xs) = settlements s"
  "timers (foldl reaction s xs) = timers s"
  "handshakes (foldl reaction s xs) = handshakes s"
  by (induction xs arbitrary: s; simp)+

lemma drain_fields [simp]:
  "client (drain s) = client s"
  "messageId (drain s) = messageId s"
  "pendingRequests (drain s) = pendingRequests s"
  "request_ids (written (drain s)) = request_ids (written s)"
  "settlements (drain s) = settlements s"
  "timers (drain s) = timers s"
  "handshakes (drain s) = handshakes s"
  by (simp_all add: drain_def)

lemma ids_inv_fields:
  assumes "messageId s' = messageId s" "request_ids (written s') = request_ids (written s)"
    "pendingRequests s' = pendingRequests s" "settlements s' = settlements s"
  shows "ids_inv s' = ids_inv s"
  unfolding ids_inv_def slot_ok_def assms by (rule refl)

lemma ids_inv_create: "ids_inv (createLSPClient path)"
  by (simp add: ids_inv_def slot_ok_def createLSPClient_def)

lemma upto_snoc: "(0::int) \<le> m \<Longrightarrow> [1..m + 1] = [1..m] @ [m + 1]"
  using upto_rec2 [of 1 "m + 1"] by simp

lemma sendRequest_Inr:
  assumes "sendRequest meth ps s = Inr (i, s')"
  shows "client s \<noteq> None" "i = messageId s + 1" "messageId s' = messageId s + 1"
    "request_ids (written s') = request_ids (written s) @ [messageId s + 1]"
    "pendingRequests s' = (pendingRequests s)(messageId s + 1 \<mapsto> messageId s + 1)"
    "settlements s' = settlements s" "client s' = client s"
    "timers s' = timers s @ [messageId s + 1]" "handshakes s' = handshakes s"
    "microtasks s' = microtasks s" "length (heap s') = length (heap s)"
proof -
  from assms show c: "client s \<noteq> None"
    by (simp add: sendRequest_def split: if_splits)
  with assms have s': "s' = (write_client
           \<lparr>jsonrpc = ''2.0'', msg_id = Some (messageId s + 1), method = Some meth,
            params = Some ps\<rparr>
           (s\<lparr>messageId := messageId s + 1,
              pendingRequests := (pendingRequests s)(messageId s + 1 \<mapsto> messageId s + 1)\<rparr>))
         \<lparr>timers := timers s @ [messageId s + 1]\<rparr>"
    and i: "i = messageId s + 1"
    by (auto simp add: sendRequest_def Let_def)
  from c obtain k where k: "client s = Some k" by auto
  show "i = messageId s + 1" by (rule i)
  show "messageId s' = messageId s + 1"
    "request_ids (written s') = request_ids (written s) @ [messageId s + 1]"
    "pendingRequests s' = (pendingRequests s)(messageId s + 1 \<mapsto> messageId s + 1)"
    "settlements s' = settlements s" "client s' = client s"
    "timers s' = timers s @ [messageId s + 1]" "handshakes s' = handshakes s"
    "microtasks s' = microtasks s" "length (heap s') = length (heap s)"
    by (simp_all add: s' k)
qed

lemma ids_inv_sendRequest:
  assumes inv: "ids_inv s" and send: "sendRequest meth ps s = Inr (i, s')"
  shows "ids_inv s'"
proof -
  note f = sendRequest_Inr(3-6) [OF send]
  from inv have m: "0 \<le> messageId s" and iss: "request_ids (written s) = [1..messageId s]"
    and d: "distinct (map fst (settlements s))" and slots: "\<And>j. slot_ok s j"
    by (simp_all add: ids_inv_def)
  have "slot_ok s' j" for j
  proof (cases "j = messageId s + 1")
    case True
    from slots [of j] True m show ?thesis
      by (simp add: slot_ok_def f split: option.splits)
  next
    case False
    from slots [of j] False show ?thesis
      by (auto simp add: slot_ok_def f split: option.splits)
  qed
  with m iss d show ?thesis
    by (simp add: ids_inv_def f upto_snoc)
qed

lemma ids_inv_settle_remove:
  assumes inv: "ids_inv s" and p: "pendingRequests s i = Some h"
  shows "ids_inv (settle h out (s\<lparr>pendingRequests := (pendingRequests s)(i := None)\<rparr>))"
proof -
  let ?s' = "settle h out (s\<lparr>pendingRequests := (pendingRequests s)(i := None)\<rparr>)"
  from inv have m: "0 \<le> messageId s" and iss: "request_ids (written s) = [1..messageId s]"
    and d: "distinct (map fst (settlements s))" and slots: "\<And>j. slot_ok s j"
    by (simp_all add: ids_inv_def)
  from slots [of i] p have h: "h = i" and b: "1 \<le> i" "i \<le> messageId s"
    and fresh: "i \<notin> set (map fst (settlements s))"
    by (simp_all add: slot_ok_def)
  have f: "messageId ?s' = messageId s" "request_ids (written ?s') = request_ids (written s)"
    "settlements ?s' = settlements s @ [(i, out)]"
    "pendingRequests ?s' = (pendingRequests s)(i := None)"
    by (simp_all add: settle_def h)
  have "slot_ok ?s' j" for j
  proof (cases "j = i")
    case True
    with b show ?thesis by (simp add: slot_ok_def f)
  next
    case False
    with slots [of j] show ?thesis
      by (simp add: slot_ok_def f split: option.splits)
  qed
  with m iss d fresh show ?thesis
    by (simp add: ids_inv_def f)
qed

lemma ids_inv_on_message: "ids_inv s \<Longrightarrow> ids_inv (on_message parsed s)"
  by (simp add: on_message_def ids_inv_settle_remove split: option.splits)

lemma ids_inv_message_loop:
  "ids_inv s \<Longrightarrow> ids_inv (case message_loop env ls s of Completed s' \<Rightarrow> s' | Threw s' \<Rightarrow> s')"
  by (induction ls arbitrary: s) (simp_all add: ids_inv_on_message split: option.splits)

lemma ids_inv_handleMessage: "ids_inv s \<Longrightarrow> ids_inv (handleMessage env data s)"
  unfolding handleMessage_def by (rule ids_inv_message_loop)

lemma ids_inv_request_timeout:
  assumes inv: "ids_inv s"
  shows "ids_inv (request_timeout i s)"
proof (cases "pendingRequests s i")
  case None
  with inv show ?thesis by (simp add: request_timeout_def)
next
  case (Some h)
  from inv have "slot_ok s i" by (simp add: ids_inv_def)
  with Some have "h = i" by (simp add: slot_ok_def)
  with ids_inv_settle_remove [OF inv Some] Some show ?thesis
    by (simp add: request_timeout_def)
qed

lemma ids_inv_step:
  assumes inv: "ids_inv s"
  shows "ids_inv (step env s e)"
proof (cases e)
  case CallConnect
  have "ids_inv (step env s CallConnect) = ids_inv s"
    by (rule ids_inv_fields) simp_all
  with inv CallConnect show ?thesis by simp
next
  case CallDisconnect
  have "ids_inv (step env s CallDisconnect) = ids_inv s"
    by (rule ids_inv_fields) (simp_all split: option.splits)
  with inv CallDisconnect show ?thesis by simp
next
  case (CallSendRequest m p)
  show ?thesis
  proof (cases "sendRequest m p s")
    case (Inl err)
    with inv CallSendRequest show ?thesis by simp
  next
    case (Inr r)
    obtain i s' where r: "r = (i, s')" by (cases r)
    from ids_inv_sendRequest [OF inv Inr [unfolded r]] CallSendRequest Inr r
    show ?thesis by simp
  qed
next
  case (SocketConnected k)
  let ?ps = "JObj [(''processId'', JNum (pid env)),
                   (''rootUri'', JStr (getFileUri (projectPath s))),
                   (''capabilities'', JObj [])]"
  show ?thesis
  proof (cases "k < length (heap s)")
    case False
    with inv SocketConnected show ?thesis by simp
  next
    case True
    show ?thesis
    proof (cases "sendRequest ''initialize'' ?ps s")
      case (Inl err)
      have "ids_inv (resolveConnect k False s) = ids_inv s"
        by (rule ids_inv_fields) simp_all
      with inv SocketConnected True Inl show ?thesis by simp
    next
      case (Inr r)
      obtain i s' where r: "r = (i, s')" by (cases r)
      have "ids_inv (s'\<lparr>handshakes := handshakes s' @ [(i, k)]\<rparr>) = ids_inv s'"
        by (rule ids_inv_fields) simp_all
      with ids_inv_sendRequest [OF inv Inr [unfolded r]] SocketConnected True Inr r
      show ?thesis by simp
    qed
  qed
next
  case (SocketError k)
  have "ids_inv (resolveConnect k False (destroy k s)) = ids_inv s"
    by (rule ids_inv_fields) simp_all
  with inv SocketError show ?thesis by simp
next
  case (SocketClosed k)
  have "ids_inv (destroy k s) = ids_inv s"
    by (rule ids_inv_fields) simp_all
  with inv SocketClosed show ?thesis by simp
next
  case (SocketData k d)
  have "ids_inv (drain (handleMessage env d s)) = ids_inv (handleMessage env d s)"
    by (rule ids_inv_fields) simp_all
  with ids_inv_handleMessage [OF inv] inv SocketData show ?thesis by simp
next
  case (RequestTimer i)
  let ?s1 = "s\<lparr>timers := removeAll i (timers s)\<rparr>"
  have "ids_inv ?s1 = ids_inv s"
    by (rule ids_inv_fields) simp_all
  with inv have "ids_inv (request_timeout i ?s1)"
    by (simp add: ids_inv_request_timeout)
  moreover have "ids_inv (drain (request_timeout i ?s1)) = ids_inv (request_timeout i ?s1)"
    by (rule ids_inv_fields) simp_all
  ultimately show ?thesis using inv RequestTimer by simp
qed

lemma ids_inv_run: "ids_inv s \<Longrightarrow> ids_inv (run env s es)"
  unfolding run_def by (induction es arbitrary: s) (simp_all add: ids_inv_step)


lemma ids_inv_reachable: "ids_inv (run env (createLSPClient path) es)"
  by (rule ids_inv_run) (rule ids_inv_create)

lemma loop_inv_create: "loop_inv (createLSPClient path)"
  by (simp add: loop_inv_def createLSPClient_def)

lemma settle_fields [simp]:
  "client (settle h out s) = client s"
  "messageId (settle h out s) = messageId s"
  "pendingRequests (settle h out s) = pendingRequests s"
  "written (settle h out s) = written s"
  "timers (settle h out s) = timers s"
  "handshakes (settle h out s) = handshakes s"
  "heap (settle h out s) = heap s"
  "settlements (settle h out s) = settlements s @ [(h, out)]"
  by (simp_all add: settle_def)

lemma on_message_fields [simp]:
  "client (on_message parsed s) = client s"
  "messageId (on_message parsed s) = messageId s"
  "written (on_message parsed s) = written s"
  "timers (on_message parsed s) = timers s"
  "handshakes (on_message parsed s) = handshakes s"
  "heap (on_message parsed s) = heap s"
  by (simp_all add: on_message_def split: option.splits)

lemma on_message_pending:
  "pendingRequests (on_message parsed s) j \<noteq> None \<Longrightarrow> pendingRequests s j \<noteq> None"
  by (auto simp add: on_message_def split: option.splits if_splits)

lemma message_loop_fields:
  "client (case message_loop env ls s of Completed s' \<Rightarrow> s' | Threw s' \<Rightarrow> s') = client s \<and>
   messageId (case message_loop env ls s of Completed s' \<Rightarrow> s' | Threw s' \<Rightarrow> s') = messageId s \<and>
   timers (case message_loop env ls s of Completed s' \<Rightarrow> s' | Threw s' \<Rightarrow> s') = timers s \<and>
   handshakes (case message_loop env ls s of Completed s' \<Rightarrow> s' | Threw s' \<Rightarrow> s') = handshakes s \<and>
   heap (case message_loop env ls s of Completed s' \<Rightarrow> s' | Threw s' \<Rightarrow> s') = heap s \<and>
   (\<forall>j. pendingRequests (case message_loop env ls s of Completed s' \<Rightarrow> s' | Threw s' \<Rightarrow> s') j \<noteq> None
        \<longrightarrow> pendingRequests s j \<noteq> None)"
proof (induction ls arbitrary: s)
  case Nil
  show ?case by simp
next
  case (Cons l ls)
  show ?case
  proof (cases "JSON_parse env l")
    case None
    then show ?thesis by simp
  next
    case (Some parsed)
    from Cons.IH [of "on_message parsed s"] Some on_message_pending [of parsed s]
    show ?thesis by simp
  qed
qed

lemma handleMessage_fields [simp]:
  "client (handleMessage env data s) = client s"
  "messageId (handleMessage env data s) = messageId s"
  "timers (handleMessage env data s) = timers s"
  "handshakes (handleMessage env data s) = handshakes s"
  "heap (handleMessage env data s) = heap s"
  using message_loop_fields [of env "messages data" s] by (simp_all add: handleMessage_def)

lemma handleMessage_pending:
  "pendingRequests (handleMessage env data s) j \<noteq> None \<Longrightarrow> pendingRequests s j \<noteq> None"
  using message_loop_fields [of env "messages data" s] by (simp add: handleMessage_def)

lemma request_timeout_fields [simp]:
  "client (request_timeout i s) = client s"
  "messageId (request_timeout i s) = messageId s"
  "timers (request_timeout i s) = timers s"
  "handshakes (request_timeout i s) = handshakes s"
  "heap (request_timeout i s) = heap s"
  "pendingRequests (request_timeout i s) = (pendingRequests s)(i := None)"
  by (auto simp add: request_timeout_def)

lemma foldl_reaction_microtasks [simp]: "microtasks (foldl reaction s xs) = microtasks s"
  by (induction xs arbitrary: s) simp_all

lemma drain_microtasks [simp]: "microtasks (drain s) = []"
  by (simp add: drain_def)

lemma loop_inv_step:
  assumes inv: "loop_inv s"
  shows "loop_inv (step env s e)"
proof -
  from inv have mt: "microtasks s = []"
    and tm: "\<And>j. pendingRequests s j \<noteq> None \<Longrightarrow> j \<in> set (timers s)"
    and hs: "\<And>j k. (j, k) \<in> set (handshakes s) \<Longrightarrow> j \<le> messageId s"
    by (force simp add: loop_inv_def)+
  show ?thesis
  proof (cases e)
    case CallConnect
    with inv show ?thesis by (simp add: loop_inv_def)
  next
    case CallDisconnect
    with inv show ?thesis by (simp add: loop_inv_def split: option.splits)
  next
    case (CallSendRequest m p)
    show ?thesis
    proof (cases "sendRequest m p s")
      case (Inl err)
      with inv CallSendRequest show ?thesis by simp
    next
      case (Inr r)
      obtain i s' where r: "r = (i, s')" by (cases r)
      note f = sendRequest_Inr [OF Inr [unfolded r]]
      have "loop_inv s'"
        unfolding loop_inv_def using mt tm
        by (auto simp add: f dest!: hs)
      with CallSendRequest Inr r show ?thesis by simp
    qed
  next
    case (SocketConnected k)
    let ?ps = "JObj [(''processId'', JNum (pid env)),
                     (''rootUri'', JStr (getFileUri (projectPath s))),
                     (''capabilities'', JObj [])]"
    show ?thesis
    proof (cases "k < length (heap s)")
      case False
      with inv SocketConnected show ?thesis by simp
    next
      case True
      show ?thesis
      proof (cases "sendRequest ''initialize'' ?ps s")
        case (Inl err)
        have "loop_inv (resolveConnect k False s)"
          using inv by (simp add: loop_inv_def)
        with SocketConnected True Inl show ?thesis by simp
      next
        case (Inr r)
        obtain i s' where r: "r = (i, s')" by (cases r)
        note f = sendRequest_Inr [OF Inr [unfolded r]]
        have "loop_inv (s'\<lparr>handshakes := handshakes s' @ [(i, k)]\<rparr>)"
          unfolding loop_inv_def using mt tm
          by (auto simp add: f dest!: hs)
        with SocketConnected True Inr r show ?thesis by simp
      qed
    qed
  next
    case (SocketError k)
    have "loop_inv (resolveConnect k False (destroy k s))"
      using inv by (simp add: loop_inv_def)
    with inv SocketError show ?thesis by simp
  next
    case (SocketClosed k)
    have "loop_inv (destroy k s)"
      using inv by (simp add: loop_inv_def)
    with inv SocketClosed show ?thesis by simp
  next
    case (SocketData k d)
    have "loop_inv (drain (handleMessage env d s))"
      unfolding loop_inv_def using tm handleMessage_pending [of env d s]
      by (auto dest!: hs)
    with inv SocketData show ?thesis by simp
  next
    case (RequestTimer i)
    have "loop_inv (drain (request_timeout i (s\<lparr>timers := removeAll i (timers s)\<rparr>)))"
      unfolding loop_inv_def using tm
      by (auto dest!: hs)
    with inv RequestTimer show ?thesis by simp
  qed
qed

lemma loop_inv_run: "loop_inv s \<Longrightarrow> loop_inv (run env s es)"
  unfolding run_def by (induction es arbitrary: s) (simp_all add: loop_inv_step)

lemma loop_inv_reachable: "loop_inv (run env (createLSPClient path) es)"
  by (rule loop_inv_run) (rule loop_inv_create)

text \<open>Unfolding the client on concrete runs.\<close>

lemmas lsp_defs = run_def createLSPClient_def sendRequest_def write_client_def destroy_def
  resolveConnect_def settle_def request_timeout_def drain_def sendNotification_def
  handleMessage_def on_message_def isConnected_def Let_def sample_env_def getFileUri_def

lemma messages_bad_good: "messages (garbage @ CHR 0x0A # response_1) = [garbage, response_1]"
  by (simp add: messages_def garbage_def response_1_def)

lemma messages_good_bad: "messages (response_1 @ CHR 0x0A # garbage) = [response_1, garbage]"
  by (simp add: messages_def garbage_def response_1_def)

lemma sample_parse_lines: "sample_parse garbage = None"
  "sample_parse response_1 = Some \<lparr>jsonrpc = ''2.0'', msg_id = Some 1, method = None, params = None\<rparr>"
  by (simp_all add: sample_parse_def garbage_def response_1_def)

subsection \<open>Correlation ids\<close>

lemma sendRequest_envelope:
  assumes "sendRequest meth ps s = Inr (i, s')" "client s = Some k"
  shows "i = messageId s + 1 \<and> pendingRequests s' i = Some i \<and>
         written s' = written s @
           [(k, \<lparr>jsonrpc = ''2.0'', msg_id = Some i, method = Some meth, params = Some ps\<rparr>)]"
  using assms by (auto simp add: sendRequest_def Let_def)

lemma request_ids_filter_subset:
  "set (request_ids (filter P ws)) \<subseteq> set (request_ids ws)"
  by (induction ws rule: request_ids.induct) (auto split: option.splits)

lemma request_ids_filter_sorted:
  "sorted_wrt (<) (request_ids ws) \<Longrightarrow> sorted_wrt (<) (request_ids (filter P ws))"
proof (induction ws rule: request_ids.induct)
  case 1
  show ?case by simp
next
  case (2 k m ws)
  show ?case
  proof (cases "msg_id m")
    case None
    with 2 show ?thesis by simp
  next
    case (Some i)
    with 2 request_ids_filter_subset [of P ws] show ?thesis by auto
  qed
qed

text \<open>
  Claim C6, as stated, at a client that connects a second time: the \<open>initialize\<close>
  request of the second connection is the only request written to its socket, and it
  carries id 2, not 1.
\<close>

theorem second_connection_starts_at_2:
  "request_ids (on_socket 1 (written (run sample_env (createLSPClient ''C:/game'')
      [CallConnect, SocketConnected 0, CallDisconnect, CallConnect, SocketConnected 1]))) =
   [2]"
  by (simp add: lsp_defs on_socket_def)

text \<open>
  Claim C6, amended. The counter belongs to the client, not to the connection. After
  any history of calls and events, the ids of the requests the client has written
  (\<open>initialize\<close> included), in the order written, are exactly \<open>1, 2, \<dots>, messageId\<close>: every
  request carries the next integer, the first request of the client carries 1, and a
  later connection continues the numbering. The ids written on any one socket are
  strictly increasing and never repeated, and every key of the pending map is the id of
  a request written; so two requests issued before either resolves carry different ids.
\<close>

theorem ids_consecutive:
  "request_ids (written (run env (createLSPClient path) es)) =
     [1..messageId (run env (createLSPClient path) es)] \<and>
   sorted_wrt (<) (request_ids (on_socket k (written (run env (createLSPClient path) es)))) \<and>
   distinct (request_ids (on_socket k (written (run env (createLSPClient path) es)))) \<and>
   dom (pendingRequests (run env (createLSPClient path) es)) \<subseteq>
     set (request_ids (written (run env (createLSPClient path) es)))"
proof -
  let ?s = "run env (createLSPClient path) es"
  have inv: "ids_inv ?s" by (rule ids_inv_reachable)
  then have ids: "request_ids (written ?s) = [1..messageId ?s]"
    and slots: "\<And>i. slot_ok ?s i"
    by (simp_all add: ids_inv_def)
  have "sorted_wrt (<) (request_ids (written ?s))"
    by (simp add: ids sorted_wrt_upto)
  then have sorted: "sorted_wrt (<) (request_ids (on_socket k (written ?s)))"
    unfolding on_socket_def by (rule request_ids_filter_sorted)
  then have "distinct (request_ids (on_socket k (written ?s)))"
    by (simp add: strict_sorted_iff)
  moreover have "dom (pendingRequests ?s) \<subseteq> set (request_ids (written ?s))"
  proof
    fix i
    assume "i \<in> dom (pendingRequests ?s)"
    then obtain h where "pendingRequests ?s i = Some h" by auto
    with slots [of i] show "i \<in> set (request_ids (written ?s))"
      by (simp add: slot_ok_def ids)
  qed
  ultimately show ?thesis using ids sorted by simp
qed

theorem ids_consecutive_witness:
  "request_ids (written (run sample_env (createLSPClient ''C:/game'')
      [CallConnect, SocketConnected 0, CallSendRequest ''textDocument/hover'' JNull,
       CallDisconnect, CallConnect, SocketConnected 1])) = [1, 2, 3] \<and>
   request_ids (on_socket 0 (written (run sample_env (createLSPClient ''C:/game'')
      [CallConnect, SocketConnected 0, CallSendRequest ''textDocument/hover'' JNull,
       CallDisconnect, CallConnect, SocketConnected 1]))) = [1, 2]"
  using ids_consecutive [of sample_env "''C:/game''"
      "[CallConnect, SocketConnected 0, CallSendRequest ''textDocument/hover'' JNull,
        CallDisconnect, CallConnect, SocketConnected 1]" 0]
  by (simp add: lsp_defs on_socket_def)

subsection \<open>The handshake\<close>

text \<open>
  The path of a socket error: whatever the state, when the socket that is the client's
  current one emits \<open>error\<close>, \<open>isConnected\<close> returns \<open>false\<close> afterwards, and a
  \<open>connect\<close> call on it that has not settled resolves to \<open>false\<close>.
\<close>

lemma socket_error_disconnects:
  assumes "client s = Some k" "k < length (heap s)"
  shows "\<not> isConnected (step env s (SocketError k))"
  using assms by (simp add: resolveConnect_def destroy_def isConnected_def split: option.splits)

lemma socket_error_resolves_false:
  assumes "k < length (heap s)" "connectPromise (heap s ! k) = None"
  shows "connectPromise (heap (step env s (SocketError k)) ! k) = Some False"
  using assms by (simp add: resolveConnect_def destroy_def)

text \<open>
  Claim C3 at a fresh client whose peer accepts the connection and never answers: the
  \<open>initialize\<close> request times out, \<open>connect\<close> resolves to \<open>false\<close>, and \<open>isConnected\<close>
  returns \<open>true\<close>; the request a caller then sends is written to the socket.
\<close>

theorem initialize_timeout_leaves_socket_open:
  "connectPromise (heap (run sample_env (createLSPClient ''C:/game'')
      [CallConnect, SocketConnected 0, RequestTimer 1]) ! 0) = Some False \<and>
   isConnected (run sample_env (createLSPClient ''C:/game'')
      [CallConnect, SocketConnected 0, RequestTimer 1]) \<and>
   request_ids (on_socket 0 (written (run sample_env (createLSPClient ''C:/game'')
      [CallConnect, SocketConnected 0, RequestTimer 1,
       CallSendRequest ''textDocument/publishDiagnostics'' JNull]))) = [1, 2]"
  by (simp add: lsp_defs on_socket_def)

subsection \<open>Responses and timeouts\<close>

lemma reaction_heap_length [simp]: "length (heap (reaction s x)) = length (heap s)"
  by (cases x) (simp split: option.splits outcome.splits)

lemma foldl_reaction_heap_length [simp]: "length (heap (foldl reaction s xs)) = length (heap s)"
  by (induction xs arbitrary: s) simp_all

lemma drain_heap_length [simp]: "length (heap (drain s)) = length (heap s)"
  by (simp add: drain_def)

lemma drain_idle: "microtasks s = [] \<Longrightarrow> drain s = s"
  by (simp add: drain_def)

lemma count_settlements:
  "distinct (map fst xs) \<Longrightarrow>
     length (filter (\<lambda>x. fst x = i) xs) = (if i \<in> set (map fst xs) then 1 else 0)"
  by (induction xs) (auto simp add: image_iff)

lemma messageId_mono_step: "messageId s \<le> messageId (step env s e)"
proof (cases e)
  case (CallSendRequest m p)
  then show ?thesis
    by (cases "sendRequest m p s") (auto dest: sendRequest_Inr(3))
next
  case (SocketConnected k)
  then show ?thesis
    by (cases "sendRequest ''initialize''
           (JObj [(''processId'', JNum (pid env)),
                  (''rootUri'', JStr (getFileUri (projectPath s))),
                  (''capabilities'', JObj [])]) s")
       (auto dest: sendRequest_Inr(3))
qed (simp_all split: option.splits)

lemma messageId_mono_run: "messageId s \<le> messageId (run env s es)"
proof (induction es arbitrary: s)
  case Nil
  show ?case by (simp add: run_def)
next
  case (Cons e es)
  from messageId_mono_step [of s env e] Cons [of "step env s e"]
  show ?case by (simp add: run_def)
qed

lemma handleMessage_single:
  assumes "messages data = [l]" "JSON_parse env l = Some parsed"
  shows "handleMessage env data s = on_message parsed s"
  using assms by (simp add: handleMessage_def)

text \<open>
  Claim C4. Take a request \<open>i\<close> that is pending after any history, and a \<open>data\<close> event
  that consists of one envelope with id \<open>i\<close>. If the timer fires first, the entry is
  removed and the promise rejected with \<open>Request timeout\<close>, and the response that
  follows changes nothing at all. If the response comes first, the entry is removed and
  the promise resolved with the \<open>params\<close> of the envelope, and the timer that follows
  finds no entry and does nothing (the timer itself is spent). Whatever happens from
  then on, \<open>resolve\<close> or \<open>reject\<close> is called for request \<open>i\<close> exactly once as soon as
  its entry has left the map, and not at all before.
\<close>

theorem request_settled_once:
  assumes s: "s = run env (createLSPClient path) es"
    and pending: "pendingRequests s i \<noteq> None"
    and k: "k < length (heap s)"
    and line: "messages data = [l]" "JSON_parse env l = Some parsed" "msg_id parsed = Some i"
    and t: "t = step env s (RequestTimer i)"
    and r: "r = step env s (SocketData k data)"
  shows "pendingRequests t i = None \<and>
         settlements t = settlements s @ [(i, RejectedWith ''Request timeout'')] \<and>
         step env t (SocketData k data) = t \<and>
         pendingRequests r i = None \<and>
         settlements r = settlements s @ [(i, Resolved (params parsed))] \<and>
         step env r (RequestTimer i) = r\<lparr>timers := removeAll i (timers r)\<rparr> \<and>
         length (filter (\<lambda>x. fst x = i) (settlements (run env s es'))) =
           (if pendingRequests (run env s es') i = None then 1 else 0)"
proof -
  have inv: "ids_inv s" and linv: "loop_inv s"
    unfolding s by (rule ids_inv_reachable, rule loop_inv_reachable)
  from inv have slot: "slot_ok s i" by (simp add: ids_inv_def)
  from pending obtain h where h: "pendingRequests s i = Some h" by auto
  with slot have hi: "h = i" and i1: "1 \<le> i" and im: "i \<le> messageId s"
    by (simp_all add: slot_ok_def)
  from linv pending have armed: "i \<in> set (timers s)" and mt: "microtasks s = []"
    by (simp_all add: loop_inv_def)
  \<comment> \<open>the timeout first\<close>
  have t_inv: "loop_inv t" unfolding t by (rule loop_inv_step [OF linv])
  have t1: "pendingRequests t i = None"
    "settlements t = settlements s @ [(i, RejectedWith ''Request timeout'')]"
    using armed h by (simp_all add: t request_timeout_def)
  have t_len: "k < length (heap t)" using k armed by (simp add: t)
  from t1(1) line i1 have "handleMessage env data t = t"
    by (simp add: handleMessage_single [OF line(1,2)] on_message_def)
  with t_inv t_len have t2: "step env t (SocketData k data) = t"
    by (simp add: drain_idle loop_inv_def)
  \<comment> \<open>the response first\<close>
  have r_inv: "loop_inv r" unfolding r by (rule loop_inv_step [OF linv])
  have hm: "handleMessage env data s =
      settle i (Resolved (params parsed)) (s\<lparr>pendingRequests := (pendingRequests s)(i := None)\<rparr>)"
    using line i1 h hi by (simp add: handleMessage_single [OF line(1,2)] on_message_def)
  have r1: "pendingRequests r i = None"
    "settlements r = settlements s @ [(i, Resolved (params parsed))]"
    "timers r = timers s"
    using k by (simp_all add: r hm)
  from r1(1) have "request_timeout i (r\<lparr>timers := removeAll i (timers r)\<rparr>) =
      r\<lparr>timers := removeAll i (timers r)\<rparr>"
    by (simp add: request_timeout_def)
  moreover from r_inv have "microtasks (r\<lparr>timers := removeAll i (timers r)\<rparr>) = []"
    by (simp add: loop_inv_def)
  ultimately have r2: "step env r (RequestTimer i) = r\<lparr>timers := removeAll i (timers r)\<rparr>"
    using armed r1(3) by (simp add: drain_idle)
  \<comment> \<open>every continuation\<close>
  let ?u = "run env s es'"
  have u_inv: "ids_inv ?u" by (rule ids_inv_run [OF inv])
  then have d: "distinct (map fst (settlements ?u))" and u_slot: "slot_ok ?u i"
    by (simp_all add: ids_inv_def)
  from im messageId_mono_run [of s env es'] have "i \<le> messageId ?u" by simp
  with u_slot i1 have "(i \<in> set (map fst (settlements ?u))) = (pendingRequests ?u i = None)"
    by (auto simp add: slot_ok_def split: option.splits)
  with count_settlements [OF d, of i]
  have c: "length (filter (\<lambda>x. fst x = i) (settlements ?u)) =
      (if pendingRequests ?u i = None then 1 else 0)"
    by simp
  from t1 t2 r1(1,2) r2 c show ?thesis by simp
qed

theorem request_settled_once_witness:
  "pendingRequests (run sample_env (createLSPClient ''C:/game'')
      [CallConnect, SocketConnected 0, RequestTimer 1]) 1 = None \<and>
   settlements (run sample_env (createLSPClient ''C:/game'')
      [CallConnect, SocketConnected 0, RequestTimer 1]) = [(1, RejectedWith ''Request timeout'')] \<and>
   settlements (run sample_env (createLSPClient ''C:/game'')
      [CallConnect, SocketConnected 0, RequestTimer 1, SocketData 0 response_1]) =
     [(1, RejectedWith ''Request timeout'')] \<and>
   pendingRequests (run sample_env (createLSPClient ''C:/game'')
      [CallConnect, SocketConnected 0, SocketData 0 response_1]) 1 = None \<and>
   settlements (run sample_env (createLSPClient ''C:/game'')
      [CallConnect, SocketConnected 0, SocketData 0 response_1]) = [(1, Resolved None)] \<and>
   settlements (run sample_env (createLSPClient ''C:/game'')
      [CallConnect, SocketConnected 0, SocketData 0 response_1, RequestTimer 1]) =
     [(1, Resolved None)] \<and>
   length (filter (\<lambda>x. fst x = 1) (settlements (run sample_env (createLSPClient ''C:/game'')
      [CallConnect, SocketConnected 0, RequestTimer 1, SocketData 0 response_1,
       RequestTimer 1]))) = 1"
proof -
  let ?s = "run sample_env (createLSPClient ''C:/game'') [CallConnect, SocketConnected 0]"
  have m: "messages response_1 = [response_1]"
    by (simp add: messages_def response_1_def)
  have p: "JSON_parse sample_env response_1 =
      Some \<lparr>jsonrpc = ''2.0'', msg_id = Some 1, method = None, params = None\<rparr>"
    by (simp add: sample_env_def sample_parse_lines)
  have pend: "pendingRequests ?s 1 \<noteq> None" and k: "0 < length (heap ?s)"
    by (simp_all add: lsp_defs)
  from request_settled_once [OF refl pend k m p _ refl refl,
      of "[RequestTimer 1, SocketData 0 response_1, RequestTimer 1]"]
  have "pendingRequests (step sample_env ?s (RequestTimer 1)) 1 = None \<and>
     settlements (step sample_env ?s (RequestTimer 1)) =
       settlements ?s @ [(1, RejectedWith ''Request timeout'')] \<and>
     step sample_env (step sample_env ?s (RequestTimer 1)) (SocketData 0 response_1) =
       step sample_env ?s (RequestTimer 1) \<and>
     pendingRequests (step sample_env ?s (SocketData 0 response_1)) 1 = None \<and>
     settlements (step sample_env ?s (SocketData 0 response_1)) =
       settlements ?s @ [(1, Resolved None)] \<and>
     step sample_env (step sample_env ?s (SocketData 0 response_1)) (RequestTimer 1) =
       (step sample_env ?s (SocketData 0 response_1))
         \<lparr>timers := removeAll 1 (timers (step sample_env ?s (SocketData 0 response_1)))\<rparr> \<and>
     length (filter (\<lambda>x. fst x = 1) (settlements (run sample_env ?s
        [RequestTimer 1, SocketData 0 response_1, RequestTimer 1]))) =
       (if pendingRequests (run sample_env ?s
          [RequestTimer 1, SocketData 0 response_1, RequestTimer 1]) 1 = None then 1 else 0)"
    by simp
  moreover have "settlements ?s = []" by (simp add: lsp_defs)
  moreover have "pendingRequests (run sample_env ?s
          [RequestTimer 1, SocketData 0 response_1, RequestTimer 1]) 1 = None"
    by (simp add: lsp_defs m sample_parse_lines)
  ultimately show ?thesis
    by (simp add: run_def)
qed

subsection \<open>Malformed lines\<close>

text \<open>
  Claim C9 at a \<open>data\<close> event of two lines, an unparseable one followed by the response
  to the pending request 1. The loop ends at the first line: request 1 stays in the map
  and nothing is resolved. With the same two lines in the other order the request is
  resolved.
\<close>

theorem valid_line_after_malformed_dropped:
  "pendingRequests (run sample_env (createLSPClient ''C:/game'')
      [CallConnect, SocketConnected 0, SocketData 0 (garbage @ [CHR 0x0A] @ response_1)]) 1 = Some 1 \<and>
   settlements (run sample_env (createLSPClient ''C:/game'')
      [CallConnect, SocketConnected 0, SocketData 0 (garbage @ [CHR 0x0A] @ response_1)]) = [] \<and>
   settlements (run sample_env (createLSPClient ''C:/game'')
      [CallConnect, SocketConnected 0, SocketData 0 (response_1 @ [CHR 0x0A] @ garbage)]) =
     [(1, Resolved None)]"
  by (simp add: lsp_defs messages_bad_good messages_good_bad sample_parse_lines)

end
